theory Spec2Isabelle
  imports Complex_Main "HOL-Library.Multiset"
begin

section \<open>Numbers of the program\<close>

text \<open>
  Every number that \<^verbatim>\<open>sortino_ratio.py\<close> computes with is a \<^verbatim>\<open>numpy.float64\<close> taken
  out of a pandas \<^verbatim>\<open>Series\<close> (or a Python \<^verbatim>\<open>float\<close> combined with one, which numpy
  converts). The model keeps the four kinds of value such a number can be: a finite
  number, the two infinities and NaN. Finite arithmetic is exact (type \<^typ>\<open>real\<close>):
  rounding, overflow and the sign of zero are left out. What is kept is the behaviour
  of the special values: numpy does not raise on a division by zero, it yields an
  infinity (non-zero numerator) or NaN (zero numerator); NaN is absorbing; every
  comparison with NaN is false.
\<close>

datatype fl = Fin real | PInf | NInf | NaN

instantiation fl :: "{zero, one, plus, minus, times, inverse, ord}"
begin

definition zero_fl :: fl where "zero_fl = Fin 0"

definition one_fl :: fl where "one_fl = Fin 1"

fun plus_fl :: "fl \<Rightarrow> fl \<Rightarrow> fl" where
  "plus_fl (Fin a) (Fin b) = Fin (a + b)"
| "plus_fl NaN _ = NaN"
| "plus_fl _ NaN = NaN"
| "plus_fl PInf NInf = NaN"
| "plus_fl NInf PInf = NaN"
| "plus_fl PInf _ = PInf"
| "plus_fl _ PInf = PInf"
| "plus_fl NInf _ = NInf"
| "plus_fl _ NInf = NInf"

fun minus_fl :: "fl \<Rightarrow> fl \<Rightarrow> fl" where
  "minus_fl (Fin a) (Fin b) = Fin (a - b)"
| "minus_fl NaN _ = NaN"
| "minus_fl _ NaN = NaN"
| "minus_fl PInf PInf = NaN"
| "minus_fl NInf NInf = NaN"
| "minus_fl PInf _ = PInf"
| "minus_fl _ NInf = PInf"
| "minus_fl NInf _ = NInf"
| "minus_fl _ PInf = NInf"

fun times_fl :: "fl \<Rightarrow> fl \<Rightarrow> fl" where
  "times_fl (Fin a) (Fin b) = Fin (a * b)"
| "times_fl NaN _ = NaN"
| "times_fl _ NaN = NaN"
| "times_fl PInf (Fin b) = (if b = 0 then NaN else if 0 < b then PInf else NInf)"
| "times_fl NInf (Fin b) = (if b = 0 then NaN else if 0 < b then NInf else PInf)"
| "times_fl (Fin a) PInf = (if a = 0 then NaN else if 0 < a then PInf else NInf)"
| "times_fl (Fin a) NInf = (if a = 0 then NaN else if 0 < a then NInf else PInf)"
| "times_fl PInf PInf = PInf"
| "times_fl NInf NInf = PInf"
| "times_fl PInf NInf = NInf"
| "times_fl NInf PInf = NInf"

fun divide_fl :: "fl \<Rightarrow> fl \<Rightarrow> fl" where
  "divide_fl (Fin a) (Fin b) =
     (if b = 0 then (if a = 0 then NaN else if 0 < a then PInf else NInf)
      else Fin (a / b))"
| "divide_fl NaN _ = NaN"
| "divide_fl _ NaN = NaN"
| "divide_fl (Fin a) PInf = Fin 0"
| "divide_fl (Fin a) NInf = Fin 0"
| "divide_fl PInf (Fin b) = (if 0 \<le> b then PInf else NInf)"
| "divide_fl NInf (Fin b) = (if 0 \<le> b then NInf else PInf)"
| "divide_fl PInf PInf = NaN"
| "divide_fl PInf NInf = NaN"
| "divide_fl NInf PInf = NaN"
| "divide_fl NInf NInf = NaN"

definition inverse_fl :: "fl \<Rightarrow> fl" where "inverse_fl x = divide (Fin 1) (x :: fl)"

fun less_fl :: "fl \<Rightarrow> fl \<Rightarrow> bool" where
  "less_fl (Fin a) (Fin b) = (a < b)"
| "less_fl NaN _ = False"
| "less_fl _ NaN = False"
| "less_fl _ NInf = False"
| "less_fl PInf _ = False"
| "less_fl NInf _ = True"
| "less_fl _ PInf = True"

fun less_eq_fl :: "fl \<Rightarrow> fl \<Rightarrow> bool" where
  "less_eq_fl (Fin a) (Fin b) = (a \<le> b)"
| "less_eq_fl NaN _ = False"
| "less_eq_fl _ NaN = False"
| "less_eq_fl NInf _ = True"
| "less_eq_fl _ PInf = True"
| "less_eq_fl _ NInf = False"
| "less_eq_fl PInf _ = False"

instance ..

end

instance fl :: numeral
proof
  fix a b c :: fl
  show "a + b + c = a + (b + c)"
    by (cases a; cases b; cases c) simp_all
qed

text \<open>\<^verbatim>\<open>x ** 2\<close> on a float64.\<close>

definition fl_sq :: "fl \<Rightarrow> fl" where
  "fl_sq x = x * x"

text \<open>\<^verbatim>\<open>np.sqrt\<close>: NaN (with a warning, no exception) below zero.\<close>

fun np_sqrt :: "fl \<Rightarrow> fl" where
  "np_sqrt (Fin a) = (if a < 0 then NaN else Fin (sqrt a))"
| "np_sqrt PInf = PInf"
| "np_sqrt NInf = NaN"
| "np_sqrt NaN = NaN"

text \<open>\<^verbatim>\<open>np.sum\<close> of a Python list of numbers: 0.0 for the empty list.\<close>

definition np_sum :: "fl list \<Rightarrow> fl" where
  "np_sum xs = foldl (+) 0 xs"


section \<open>Data model\<close>

text \<open>
  A pandas \<^verbatim>\<open>Series\<close> of closing prices is the list of its (date, value) entries in
  index order; the provider (yfinance) delivers them oldest first, with strictly
  increasing dates. The errors are the Python exceptions the code can raise: it
  defines no exception class of its own and contains no \<^verbatim>\<open>raise\<close>.
\<close>

type_synonym ticker = string
type_synonym date = nat
type_synonym series = "(date \<times> fl) list"

datatype error = TypeError | IndexError | AttributeError

text \<open>
  \<^verbatim>\<open>self.portf_value\<close> is the int \<^verbatim>\<open>0\<close> until the first \<^verbatim>\<open>+=\<close> of a Series, and a
  Series from then on.
\<close>

datatype pyval = Scalar fl | Series series

text \<open>
  The attributes of a \<^verbatim>\<open>Portfolio\<close> object. \<^verbatim>\<open>portf_value\<close> and \<^verbatim>\<open>portf_data\<close> are
  assigned by the first two statements of \<^verbatim>\<open>_download_data\<close>; the other derived
  attributes do not exist until the method that assigns them has run (\<open>None\<close>).
\<close>

record portfolio =
  asset_list :: "ticker list"
  risk_free_rate :: fl
  portf_value :: pyval
  portf_data :: "series list"
  portf_return :: "fl option"
  ner :: "fl list option"
  portf_beta :: "fl option"
  dwn_dev :: "fl option"

section \<open>Series operations\<close>

text \<open>
  \<^verbatim>\<open>s[k]\<close> with an integer \<^verbatim>\<open>k\<close> on a date-indexed Series is positional; a negative
  \<^verbatim>\<open>k\<close> counts from the end; out of range raises IndexError.
\<close>

definition series_getitem :: "series \<Rightarrow> int \<Rightarrow> error + fl" where
  "series_getitem s k =
     (let n = int (length s); j = (if k < 0 then n + k else k)
      in if 0 \<le> j \<and> j < n then Inr (snd (s ! nat j)) else Inl IndexError)"

text \<open>Subscripting the int \<^verbatim>\<open>0\<close> raises TypeError.\<close>

definition getitem :: "pyval \<Rightarrow> int \<Rightarrow> error + fl" where
  "getitem v k = (case v of Scalar _ \<Rightarrow> Inl TypeError | Series s \<Rightarrow> series_getitem s k)"

text \<open>\<^verbatim>\<open>series / n\<close>: every value divided, the index kept.\<close>

definition series_div :: "series \<Rightarrow> fl \<Rightarrow> series" where
  "series_div s c = map (\<lambda>(d, v). (d, v / c)) s"

text \<open>
  \<^verbatim>\<open>series + series\<close> aligns the two operands on their index: the result has the
  union of the dates, in order; a date both have carries the sum, a date only one of
  them has carries NaN.
\<close>

fun align_add :: "series \<Rightarrow> series \<Rightarrow> series" where
  "align_add [] ys = map (\<lambda>(e, y). (e, NaN)) ys"
| "align_add (x # xs) [] = map (\<lambda>(d, x). (d, NaN)) (x # xs)"
| "align_add ((d, x) # xs) ((e, y) # ys) =
     (if d < e then (d, NaN) # align_add xs ((e, y) # ys)
      else if e < d then (e, NaN) # align_add ((d, x) # xs) ys
      else (d, x + y) # align_add xs ys)"

text \<open>\<^verbatim>\<open>self.portf_value += series\<close>: a number is added to every value.\<close>

definition py_add :: "pyval \<Rightarrow> series \<Rightarrow> pyval" where
  "py_add a s =
     (case a of
        Scalar c \<Rightarrow> Series (map (\<lambda>(d, v). (d, c + v)) s)
      | Series t \<Rightarrow> Series (align_add t s))"

section \<open>The class Portfolio\<close>

text \<open>
  The methods keep their names, without the leading underscore of \<^verbatim>\<open>_download_data\<close>,
  \<^verbatim>\<open>_portfolio_return\<close> and \<^verbatim>\<open>_negative_excess_returns\<close>. A method takes the object and
  returns it updated, or the exception it raises.

  \<^verbatim>\<open>_download_data\<close>. The parameter \<open>history\<close> stands for
  \<^verbatim>\<open>yf.Ticker(i).history(start, end, interval)['Close']\<close>.
\<close>

definition download_step :: "(ticker \<Rightarrow> series) \<Rightarrow> ticker \<Rightarrow> portfolio \<Rightarrow> portfolio" where
  "download_step history i p =
     (let asset_data = history i
      in p\<lparr>portf_value :=
             py_add (portf_value p) (series_div asset_data (Fin (real (length (asset_list p))))),
           portf_data := portf_data p @ [asset_data]\<rparr>)"

definition download_data :: "(ticker \<Rightarrow> series) \<Rightarrow> portfolio \<Rightarrow> portfolio" where
  "download_data history p =
     fold (download_step history) (asset_list p) (p\<lparr>portf_value := Scalar 0, portf_data := []\<rparr>)"

text \<open>\<^verbatim>\<open>_portfolio_return\<close>: the result is stored in \<^verbatim>\<open>self.portf_return\<close>.\<close>

definition portfolio_return :: "portfolio \<Rightarrow> error + portfolio" where
  "portfolio_return p =
     (case getitem (portf_value p) (- 1) of
        Inl e \<Rightarrow> Inl e
      | Inr vl \<Rightarrow>
          (case getitem (portf_value p) 0 of
             Inl e \<Rightarrow> Inl e
           | Inr v0 \<Rightarrow> Inr (p\<lparr>portf_return := Some ((vl / v0 - 1) * 100)\<rparr>)))"

text \<open>
  \<^verbatim>\<open>_negative_excess_returns\<close>: the loop over the values of \<^verbatim>\<open>self.portf_value\<close>,
  with the list \<^verbatim>\<open>self.ner\<close> as accumulator. \<^verbatim>\<open>self.portf_value[0]\<close> is read in
  every iteration.
\<close>

fun ner_loop :: "portfolio \<Rightarrow> fl list \<Rightarrow> fl list \<Rightarrow> error + fl list" where
  "ner_loop p [] acc = Inr acc"
| "ner_loop p (i # rest) acc =
     (case getitem (portf_value p) 0 of
        Inl e \<Rightarrow> Inl e
      | Inr v0 \<Rightarrow>
          if i < v0 + risk_free_rate p
          then ner_loop p rest (acc @ [fl_sq ((i / (v0 + risk_free_rate p) - 1) * 100)])
          else ner_loop p rest acc)"

definition negative_excess_returns :: "portfolio \<Rightarrow> error + portfolio" where
  "negative_excess_returns p =
     (case portf_value p of
        Scalar _ \<Rightarrow> Inl TypeError
      | Series s \<Rightarrow>
          (case ner_loop p (map snd s) [] of
             Inl e \<Rightarrow> Inl e
           | Inr xs \<Rightarrow> Inr (p\<lparr>ner := Some xs\<rparr>)))"

text \<open>
  \<^verbatim>\<open>__post_init__\<close>, the \<^verbatim>\<open>__init__\<close> that \<^verbatim>\<open>@dataclass\<close> generates (it assigns the two
  declared fields; the entries for \<^verbatim>\<open>portf_value\<close> and \<^verbatim>\<open>portf_data\<close> are overwritten by
  \<^verbatim>\<open>_download_data\<close> before anything reads them) and the constructor call
  \<^verbatim>\<open>Portfolio(asset_list, risk_free_rate)\<close>.
\<close>

definition post_init :: "(ticker \<Rightarrow> series) \<Rightarrow> portfolio \<Rightarrow> error + portfolio" where
  "post_init history p =
     (case portfolio_return (download_data history p) of
        Inl e \<Rightarrow> Inl e
      | Inr p1 \<Rightarrow> negative_excess_returns p1)"

definition dataclass_init :: "ticker list \<Rightarrow> fl \<Rightarrow> portfolio" where
  "dataclass_init al rfr =
     \<lparr>asset_list = al, risk_free_rate = rfr, portf_value = Scalar 0, portf_data = [],
      portf_return = None, ner = None, portf_beta = None, dwn_dev = None\<rparr>"

definition Portfolio :: "(ticker \<Rightarrow> series) \<Rightarrow> ticker list \<Rightarrow> fl \<Rightarrow> error + portfolio" where
  "Portfolio history al rfr = post_init history (dataclass_init al rfr)"

text \<open>
  \<^verbatim>\<open>portfolio_beta\<close>. The parameter \<open>bench\<close> stands for the \<^verbatim>\<open>'Close'\<close> column of what
  \<^verbatim>\<open>yf.download("SPY", ...)\<close> returns during this call. The local variables
  \<^verbatim>\<open>_bench_return\<close>, \<^verbatim>\<open>_asset_return\<close>, \<^verbatim>\<open>_asset_share\<close> and \<^verbatim>\<open>_asset_beta\<close> are
  definitions of their own.
\<close>

definition bench_return :: "series \<Rightarrow> error + fl" where
  "bench_return bench =
     (case series_getitem bench 0 of
        Inl e \<Rightarrow> Inl e
      | Inr b0 \<Rightarrow>
          (case series_getitem bench (- 1) of
             Inl e \<Rightarrow> Inl e
           | Inr bl \<Rightarrow> Inr ((b0 / bl - 1) * 100)))"

definition asset_return :: "series \<Rightarrow> error + fl" where
  "asset_return i =
     (case series_getitem i 0 of
        Inl e \<Rightarrow> Inl e
      | Inr i0 \<Rightarrow>
          (case series_getitem i (- 1) of
             Inl e \<Rightarrow> Inl e
           | Inr il \<Rightarrow> Inr ((i0 / il - 1) * 100)))"

definition asset_share :: "portfolio \<Rightarrow> series \<Rightarrow> error + fl" where
  "asset_share p i =
     (case series_getitem i 0 of
        Inl e \<Rightarrow> Inl e
      | Inr i0 \<Rightarrow>
          (case getitem (portf_value p) 0 of
             Inl e \<Rightarrow> Inl e
           | Inr v0 \<Rightarrow> Inr (i0 / v0)))"

definition asset_beta :: "portfolio \<Rightarrow> fl \<Rightarrow> fl \<Rightarrow> fl" where
  "asset_beta p ar br = (ar - risk_free_rate p) / (br - risk_free_rate p)"

fun beta_loop :: "portfolio \<Rightarrow> fl \<Rightarrow> series list \<Rightarrow> fl \<Rightarrow> error + fl" where
  "beta_loop p br [] acc = Inr acc"
| "beta_loop p br (i # rest) acc =
     (case asset_return i of
        Inl e \<Rightarrow> Inl e
      | Inr ar \<Rightarrow>
          (case asset_share p i of
             Inl e \<Rightarrow> Inl e
           | Inr sh \<Rightarrow>
               beta_loop p br rest
                 (acc + asset_beta p ar br * sh / Fin (real (length (portf_data p))))))"

definition portfolio_beta :: "series \<Rightarrow> portfolio \<Rightarrow> error + portfolio \<times> fl" where
  "portfolio_beta bench p =
     (case bench_return bench of
        Inl e \<Rightarrow> Inl e
      | Inr br \<Rightarrow>
          (case beta_loop p br (portf_data p) 0 of
             Inl e \<Rightarrow> Inl e
           | Inr b \<Rightarrow> Inr (p\<lparr>portf_beta := Some b\<rparr>, b)))"

text \<open>\<^verbatim>\<open>sortino_ratio\<close>: assigns \<^verbatim>\<open>self.dwn_dev\<close> and returns the ratio.\<close>

definition sortino_ratio :: "portfolio \<Rightarrow> error + portfolio \<times> fl" where
  "sortino_ratio p =
     (case ner p of
        None \<Rightarrow> Inl AttributeError
      | Some xs \<Rightarrow>
          (let d = np_sqrt (np_sum xs)
           in case portf_return p of
                None \<Rightarrow> Inl AttributeError
              | Some r \<Rightarrow> Inr (p\<lparr>dwn_dev := Some d\<rparr>, (r - risk_free_rate p) / d)))"

section \<open>Fixture data\<close>

text \<open>
  Price data for the concrete runs below: what the provider returns for every ticker.
  \<open>rising_portfolio\<close> is the object that \<^verbatim>\<open>Portfolio(["A"], 0)\<close> constructs on
  \<open>rising\<close> prices.
\<close>

definition rising :: "ticker \<Rightarrow> series" where
  "rising t = [(1, Fin 100), (2, Fin 110)]"

definition single_day :: "ticker \<Rightarrow> series" where
  "single_day t = [(1, Fin 100)]"

definition rising_portfolio :: portfolio where
  "rising_portfolio =
     \<lparr>asset_list = [''A''], risk_free_rate = Fin 0,
      portf_value = Series [(1, Fin 100), (2, Fin 110)],
      portf_data = [[(1, Fin 100), (2, Fin 110)]],
      portf_return = Some (Fin 10), ner = Some [], portf_beta = None, dwn_dev = None\<rparr>"

text \<open>Scenario A of the specification: every asset has the prices 100, 110, 90, 120.\<close>

definition scenario_a :: "ticker \<Rightarrow> series" where
  "scenario_a t = [(1, Fin 100), (2, Fin 110), (3, Fin 90), (4, Fin 120)]"

definition scenario_a_downloaded :: portfolio where
  "scenario_a_downloaded =
     \<lparr>asset_list = [''A'', ''B''], risk_free_rate = Fin 5,
      portf_value = Series [(1, Fin 100), (2, Fin 110), (3, Fin 90), (4, Fin 120)],
      portf_data = [scenario_a ''A'', scenario_a ''B''],
      portf_return = None, ner = None, portf_beta = None, dwn_dev = None\<rparr>"

text \<open>
  One asset whose price doubles, a benchmark that quadruples and a benchmark that ends
  where it began. \<open>doubling_portfolio\<close> is the object that \<^verbatim>\<open>Portfolio(["A"], 0)\<close>
  constructs on \<open>doubling\<close> prices.
\<close>

definition doubling :: "ticker \<Rightarrow> series" where
  "doubling t = [(1, Fin 100), (2, Fin 200)]"

definition quadrupling_bench :: series where
  "quadrupling_bench = [(1, Fin 100), (2, Fin 400)]"

definition flat_bench :: series where
  "flat_bench = [(1, Fin 100), (2, Fin 100)]"

definition doubling_portfolio :: portfolio where
  "doubling_portfolio =
     \<lparr>asset_list = [''A''], risk_free_rate = Fin 0,
      portf_value = Series [(1, Fin 100), (2, Fin 200)],
      portf_data = [[(1, Fin 100), (2, Fin 200)]],
      portf_return = Some (Fin 100), ner = Some [], portf_beta = None, dwn_dev = None\<rparr>"

text \<open>
  One asset going from 90 to 100 at a risk-free rate of 10: the first value is the only
  one below the threshold 100. \<open>dip_portfolio\<close> is the object that
  \<^verbatim>\<open>Portfolio(["A"], 10)\<close> constructs on \<open>dip\<close> prices.
\<close>

definition dip :: "ticker \<Rightarrow> series" where
  "dip t = [(1, Fin 90), (2, Fin 100)]"

definition dip_portfolio :: portfolio where
  "dip_portfolio =
     \<lparr>asset_list = [''A''], risk_free_rate = Fin 10,
      portf_value = Series [(1, Fin 90), (2, Fin 100)],
      portf_data = [[(1, Fin 90), (2, Fin 100)]],
      portf_return = Some (Fin (100 / 9)), ner = Some [Fin 100],
      portf_beta = None, dwn_dev = None\<rparr>"

text \<open>
  Two assets whose trading days differ: A trades on days 1 and 2, every other ticker on
  days 2 and 3. \<open>staggered_portfolio\<close> is the object that \<^verbatim>\<open>Portfolio(["A", "B"], 5)\<close>
  constructs on these prices: the aggregate has a number only on day 2.
\<close>

definition staggered :: "ticker \<Rightarrow> series" where
  "staggered t =
     (if t = ''A'' then [(1, Fin 100), (2, Fin 110)] else [(2, Fin 100), (3, Fin 110)])"

definition staggered_portfolio :: portfolio where
  "staggered_portfolio =
     \<lparr>asset_list = [''A'', ''B''], risk_free_rate = Fin 5,
      portf_value = Series [(1, NaN), (2, Fin 105), (3, NaN)],
      portf_data = [[(1, Fin 100), (2, Fin 110)], [(2, Fin 100), (3, Fin 110)]],
      portf_return = Some NaN, ner = Some [], portf_beta = None, dwn_dev = None\<rparr>"

text \<open>Two assets with different prices on the same two days.\<close>

definition two_assets :: "ticker \<Rightarrow> series" where
  "two_assets t =
     (if t = ''A'' then [(1, Fin 100), (2, Fin 200)] else [(1, Fin 300), (2, Fin 150)])"

section \<open>Notions for the aggregation of the price series\<close>

text \<open>
  These are not code of the program. \<open>dated\<close> is the invariant of a price series as the
  provider delivers it: strictly increasing dates. The value of an aggregate at one
  date is followed through the additions by \<open>at_date\<close>: \<open>None\<close> while
  \<^verbatim>\<open>self.portf_value\<close> is still the int 0, \<open>Some None\<close> for a date the Series does not
  have; \<open>comb\<close> is what the aligned sum does at one date and \<open>accum\<close> what one
  \<^verbatim>\<open>+=\<close> does.
\<close>

definition dated :: "series \<Rightarrow> bool" where
  "dated s = sorted_wrt (<) (map fst s)"

fun comb :: "fl option \<Rightarrow> fl option \<Rightarrow> fl option" where
  "comb None None = None"
| "comb (Some x) (Some y) = Some (x + y)"
| "comb (Some x) None = Some NaN"
| "comb None (Some y) = Some NaN"

fun accum :: "fl option \<Rightarrow> fl option option \<Rightarrow> fl option option" where
  "accum v None = Some v"
| "accum v (Some a) = Some (comb a v)"

fun at_date :: "pyval \<Rightarrow> date \<Rightarrow> fl option option" where
  "at_date (Scalar c) k = None"
| "at_date (Series s) k = Some (map_of s k)"

fun well_dated :: "pyval \<Rightarrow> bool" where
  "well_dated (Scalar c) = (c = Fin 0)"
| "well_dated (Series s) = dated s"

section \<open>Basic facts\<close>

lemma fl_add_commute: "(a :: fl) + b = b + a"
  by (cases a; cases b) simp_all

lemma fl_add_assoc: "((a :: fl) + b) + c = a + (b + c)"
  by (cases a; cases b; cases c) simp_all

lemma fl_numeral [simp]: "(numeral n :: fl) = Fin (numeral n)"
proof (induction n)
  case One
  show ?case by (simp only: numeral_One one_fl_def)
next
  case (Bit0 n)
  have "(numeral (num.Bit0 n) :: fl) = Fin (numeral n) + Fin (numeral n)"
    by (simp only: numeral_Bit0 Bit0.IH)
  also have "\<dots> = Fin (numeral (num.Bit0 n))"
    by (simp only: plus_fl.simps numeral_Bit0)
  finally show ?case .
next
  case (Bit1 n)
  have "(numeral (num.Bit1 n) :: fl) = Fin (numeral n) + Fin (numeral n) + Fin 1"
    by (simp only: numeral_Bit1 Bit1.IH one_fl_def)
  also have "\<dots> = Fin (numeral (num.Bit1 n))"
    by (simp only: plus_fl.simps numeral_Bit1)
  finally show ?case .
qed

lemma fl_zero [simp]: "(0 :: fl) = Fin 0"
  by (simp add: zero_fl_def)

lemma fl_one [simp]: "(1 :: fl) = Fin 1"
  by (simp add: one_fl_def)

lemmas pipeline_defs =
  Portfolio_def post_init_def dataclass_init_def download_data_def download_step_def
  py_add_def series_div_def portfolio_return_def getitem_def series_getitem_def
  negative_excess_returns_def fl_sq_def Let_def

lemma series_getitem_first: "series_getitem (x # xs) 0 = Inr (snd x)"
  by (simp add: series_getitem_def)

lemma series_getitem_last: "s \<noteq> [] \<Longrightarrow> series_getitem s (- 1) = Inr (snd (last s))"
  by (simp add: series_getitem_def last_conv_nth nat_diff_distrib' of_nat_diff)

lemma series_getitem_zero: "s \<noteq> [] \<Longrightarrow> series_getitem s 0 = Inr (snd (hd s))"
  by (cases s) (simp_all add: series_getitem_first)

lemma rising_constructed: "Portfolio rising [''A''] (Fin 0) = Inr rising_portfolio"
  by (simp add: pipeline_defs rising_def rising_portfolio_def)

text \<open>The loop of \<^verbatim>\<open>_negative_excess_returns\<close> in closed form.\<close>

lemma ner_loop_closed:
  assumes "getitem (portf_value p) 0 = Inr v0"
  shows "ner_loop p vs acc =
     Inr (acc @ map (\<lambda>v. fl_sq ((v / (v0 + risk_free_rate p) - 1) * 100))
                  (filter (\<lambda>v. v < v0 + risk_free_rate p) vs))"
  using assms by (induction vs arbitrary: acc) simp_all

section \<open>Sortino ratio without downside\<close>

text \<open>
  C1, as the specification states it: for every portfolio whose negative-excess-return
  set is empty, \<^verbatim>\<open>sortino_ratio\<close> raises an UndefinedRatioError and never returns
  infinity or NaN. The code has no such guard. On rising prices with a risk-free rate
  of 0 no value is below the threshold, the set is empty, and the call returns the
  quotient \<open>(10 - 0) / 0\<close>, which numpy evaluates to plus infinity.
\<close>

theorem sortino_ratio_infinite_counterexample:
  "Portfolio rising [''A''] (Fin 0) = Inr rising_portfolio
   \<and> ner rising_portfolio = Some []
   \<and> sortino_ratio rising_portfolio = Inr (rising_portfolio\<lparr>dwn_dev := Some (Fin 0)\<rparr>, PInf)"
  by (simp add: rising_constructed)
     (simp add: rising_portfolio_def sortino_ratio_def np_sum_def Let_def)

text \<open>
  C1, amended: for every portfolio whose negative-excess-return set is empty,
  \<^verbatim>\<open>sortino_ratio\<close> raises nothing; it stores a downside deviation of 0 and returns the
  quotient of return minus risk-free rate by zero, which is plus infinity, minus
  infinity or NaN and never a finite number.
\<close>

theorem sortino_ratio_empty_ner:
  assumes "ner p = Some []" and "portf_return p = Some r"
  shows "sortino_ratio p = Inr (p\<lparr>dwn_dev := Some (Fin 0)\<rparr>, (r - risk_free_rate p) / Fin 0)
         \<and> (r - risk_free_rate p) / Fin 0 \<in> {PInf, NInf, NaN}"
proof -
  have "x / Fin 0 \<in> {PInf, NInf, NaN}" for x
    by (cases x) simp_all
  with assms show ?thesis
    by (simp add: sortino_ratio_def np_sum_def Let_def)
qed

theorem sortino_ratio_empty_ner_witness:
  "ner rising_portfolio = Some [] \<and> portf_return rising_portfolio = Some (Fin 10)
   \<and> sortino_ratio rising_portfolio = Inr (rising_portfolio\<lparr>dwn_dev := Some (Fin 0)\<rparr>, PInf)"
  using sortino_ratio_empty_ner [of rising_portfolio "Fin 10"]
  by (simp add: rising_portfolio_def)

section \<open>Negative excess returns\<close>

text \<open>
  C4: for every portfolio value series and risk-free rate, the negative-excess-return
  set holds exactly one entry \<open>((v / (value[first] + risk_free_rate) - 1) * 100) ** 2\<close>
  for each value \<open>v\<close> of the series with \<open>v < value[first] + risk_free_rate\<close>, in the
  order of the series, and nothing else; the threshold is the sum of the first value and
  the rate. (For the empty series the loop body never runs and the set is empty.)
\<close>

theorem negative_excess_returns_entries:
  assumes "portf_value p = Series s"
  shows "negative_excess_returns p =
     Inr (p\<lparr>ner := Some (map (\<lambda>v. fl_sq ((v / (snd (hd s) + risk_free_rate p) - 1) * 100))
                        (filter (\<lambda>v. v < snd (hd s) + risk_free_rate p) (map snd s)))\<rparr>)"
proof (cases s)
  case Nil
  with assms show ?thesis by (simp add: negative_excess_returns_def)
next
  case (Cons x xs)
  with assms have "getitem (portf_value p) 0 = Inr (snd (hd s))"
    by (simp add: getitem_def series_getitem_first)
  from ner_loop_closed [OF this] assms show ?thesis
    by (simp add: negative_excess_returns_def)
qed

theorem negative_excess_returns_entries_witness:
  "portf_value (rising_portfolio\<lparr>risk_free_rate := Fin 5, ner := None\<rparr>)
     = Series [(1, Fin 100), (2, Fin 110)]
   \<and> negative_excess_returns (rising_portfolio\<lparr>risk_free_rate := Fin 5, ner := None\<rparr>)
     = Inr (rising_portfolio\<lparr>risk_free_rate := Fin 5,
                               ner := Some [Fin (((100 / 105 - 1) * 100) * ((100 / 105 - 1) * 100))]\<rparr>)"
  using negative_excess_returns_entries
          [of "rising_portfolio\<lparr>risk_free_rate := Fin 5, ner := None\<rparr>"
              "[(1, Fin 100), (2, Fin 110)]"]
  by (simp add: rising_portfolio_def fl_sq_def)

section \<open>Portfolio return\<close>



text \<open>
  C7, as the specification states it: for every portfolio value series with fewer than
  2 points the portfolio-return computation fails with an InsufficientDataError. The
  code has no length check: on a one-point series index 0 and index -1 are the same
  entry, nothing is raised, and the stored return is \<open>(100 / 100 - 1) * 100 = 0\<close>.
\<close>

theorem portfolio_return_single_point_counterexample:
  "length (single_day ''A'') < 2
   \<and> portfolio_return (download_data single_day (dataclass_init [''A''] (Fin 0)))
     = Inr \<lparr>asset_list = [''A''], risk_free_rate = Fin 0,
            portf_value = Series [(1, Fin 100)], portf_data = [[(1, Fin 100)]],
            portf_return = Some (Fin 0), ner = None, portf_beta = None, dwn_dev = None\<rparr>"
  by (simp add: pipeline_defs single_day_def)

text \<open>
  C7, amended: for the empty portfolio value series the portfolio-return computation
  fails with Python's IndexError; for a one-point series it does not fail and stores
  \<open>(v / v - 1) * 100\<close>, which is 0 for a finite non-zero value \<open>v\<close> (and NaN for 0).
\<close>

theorem portfolio_return_short_series:
  "portfolio_return (p\<lparr>portf_value := Series []\<rparr>) = Inl IndexError
   \<and> portfolio_return (p\<lparr>portf_value := Series [(d, v)]\<rparr>)
       = Inr (p\<lparr>portf_value := Series [(d, v)], portf_return := Some ((v / v - 1) * 100)\<rparr>)
   \<and> (Fin a / Fin a - 1) * 100 = (if a = 0 then NaN else Fin 0)"
  by (simp add: portfolio_return_def getitem_def series_getitem_def)

theorem portfolio_return_short_series_witness:
  "portfolio_return (rising_portfolio\<lparr>portf_value := Series []\<rparr>) = Inl IndexError
   \<and> portfolio_return (rising_portfolio\<lparr>portf_value := Series [(1, Fin 100)]\<rparr>)
       = Inr (rising_portfolio\<lparr>portf_value := Series [(1, Fin 100)], portf_return := Some (Fin 0)\<rparr>)"
  using portfolio_return_short_series [of rising_portfolio 1 "Fin 100" 100]
  by simp

section \<open>Scenario A\<close>

lemma sqrt_scenario_a_bounds:
  "15.058 < sqrt (100000 / 441 :: real) \<and> sqrt (100000 / 441 :: real) < 15.059"
proof
  show "15.058 < sqrt (100000 / 441 :: real)"
    by (rule real_less_rsqrt) (simp add: power2_eq_square)
  show "sqrt (100000 / 441 :: real) < 15.059"
    by (rule real_less_lsqrt) (simp_all add: power2_eq_square)
qed

lemma scenario_a_download:
  "download_data scenario_a (dataclass_init [''A'', ''B''] (Fin 5)) = scenario_a_downloaded"
  by (simp add: dataclass_init_def download_data_def download_step_def py_add_def
        series_div_def scenario_a_def scenario_a_downloaded_def Let_def)



section \<open>Portfolio beta\<close>

lemmas beta_defs =
  portfolio_beta_def bench_return_def asset_return_def asset_share_def asset_beta_def
  getitem_def series_getitem_def

lemma div_by_zero_not_finite: "x / (y - y) \<in> {PInf, NInf, NaN}"
  by (cases x; cases y) simp_all

lemma not_finite_times: "x \<in> {PInf, NInf, NaN} \<Longrightarrow> x * y \<in> {PInf, NInf, NaN}"
  by (cases x; cases y) auto

lemma not_finite_div_count: "x \<in> {PInf, NInf, NaN} \<Longrightarrow> x / Fin (real n) \<in> {PInf, NInf, NaN}"
  by (cases x) auto

lemma not_finite_plus: "x \<in> {PInf, NInf, NaN} \<or> y \<in> {PInf, NInf, NaN} \<Longrightarrow> x + y \<in> {PInf, NInf, NaN}"
  by (cases x; cases y) auto

lemma beta_term_not_finite:
  "acc + asset_beta p ar (risk_free_rate p) * sh / Fin (real n) \<in> {PInf, NInf, NaN}"
  unfolding asset_beta_def
  by (intro not_finite_plus disjI2 not_finite_div_count not_finite_times div_by_zero_not_finite)

lemma beta_loop_degenerate:
  assumes "getitem (portf_value p) 0 = Inr v0" and "[] \<notin> set is"
    and "is \<noteq> [] \<or> acc \<in> {PInf, NInf, NaN}"
  shows "\<exists>b \<in> {PInf, NInf, NaN}. beta_loop p (risk_free_rate p) is acc = Inr b"
  using assms
proof (induction "is" arbitrary: acc)
  case Nil
  then show ?case by simp
next
  case (Cons i rest)
  from Cons.prems(2) obtain x xs where i: "i = x # xs"
    by (cases i) auto
  let ?acc = "acc + asset_beta p ((snd x / snd (last i) - 1) * 100) (risk_free_rate p)
                 * (snd x / v0) / Fin (real (length (portf_data p)))"
  have "\<exists>b \<in> {PInf, NInf, NaN}. beta_loop p (risk_free_rate p) rest ?acc = Inr b"
    using Cons.prems(1,2) beta_term_not_finite by (intro Cons.IH) auto
  moreover have "beta_loop p (risk_free_rate p) (i # rest) acc
                   = beta_loop p (risk_free_rate p) rest ?acc"
    using Cons.prems(1) series_getitem_last [of i] i
    by (simp add: asset_return_def asset_share_def series_getitem_first)
  ultimately show ?case by simp
qed

text \<open>
  C2: in the beta computation the benchmark return and each asset return are to be
  \<open>(price[last] / price[first] - 1) * 100\<close>, with the earliest price at index 0, as in
  the portfolio-return computation. The code of \<^verbatim>\<open>portfolio_beta\<close> divides the other way
  round, \<open>(price[0] / price[-1] - 1) * 100\<close>, on the very series whose index 0
  \<^verbatim>\<open>_portfolio_return\<close> treats as the first day. For one asset going from 100 to 200 and
  a benchmark going from 100 to 400 at a risk-free rate of 0: the portfolio return is
  100, but the asset return in the beta computation is -50 instead of 100, the benchmark
  return is -75 instead of 300, and beta is 2/3 instead of 1/3.
\<close>

theorem beta_returns_reversed:
  "Portfolio doubling [''A''] (Fin 0) = Inr doubling_portfolio
   \<and> portf_return doubling_portfolio = Some (Fin ((200 / 100 - 1) * 100))
   \<and> asset_return (doubling ''A'') = Inr (Fin ((100 / 200 - 1) * 100))
   \<and> bench_return quadrupling_bench = Inr (Fin ((100 / 400 - 1) * 100))
   \<and> portfolio_beta quadrupling_bench doubling_portfolio
       = Inr (doubling_portfolio\<lparr>portf_beta := Some (Fin (2 / 3))\<rparr>, Fin (2 / 3))"
  by (simp add: pipeline_defs beta_defs doubling_def quadrupling_bench_def doubling_portfolio_def)

text \<open>
  C6, as the specification states it: when the benchmark return equals the risk-free
  rate, the beta computation fails with a DegenerateBenchmarkError instead of dividing
  by zero, in particular for a single-asset portfolio. The code has no such guard. For
  the single doubling asset at a risk-free rate of 0 and a benchmark that ends where it
  began (benchmark return 0), the asset beta is \<open>(-50 - 0) / (0 - 0)\<close> and the call
  returns minus infinity.
\<close>

theorem portfolio_beta_degenerate_counterexample:
  "Portfolio doubling [''A''] (Fin 0) = Inr doubling_portfolio
   \<and> bench_return flat_bench = Inr (risk_free_rate doubling_portfolio)
   \<and> portfolio_beta flat_bench doubling_portfolio
       = Inr (doubling_portfolio\<lparr>portf_beta := Some NInf\<rparr>, NInf)"
  by (simp add: pipeline_defs beta_defs doubling_def flat_bench_def doubling_portfolio_def)

text \<open>
  C6, amended: when the benchmark return equals the risk-free rate the beta computation
  raises nothing; for a portfolio with at least one retained asset series, none of them
  empty, every asset beta is a division by zero and \<^verbatim>\<open>portfolio_beta\<close> returns (and
  stores) plus infinity, minus infinity or NaN.
\<close>

theorem portfolio_beta_degenerate_benchmark:
  assumes "bench_return bench = Inr (risk_free_rate p)"
    and "portf_value p = Series (x # xs)"
    and "portf_data p \<noteq> []" and "[] \<notin> set (portf_data p)"
  shows "\<exists>b \<in> {PInf, NInf, NaN}. portfolio_beta bench p = Inr (p\<lparr>portf_beta := Some b\<rparr>, b)"
proof -
  from assms(2) have "getitem (portf_value p) 0 = Inr (snd x)"
    by (simp add: getitem_def series_getitem_first)
  from beta_loop_degenerate [OF this assms(4), of 0] assms(3)
  obtain b where "b \<in> {PInf, NInf, NaN}"
    and "beta_loop p (risk_free_rate p) (portf_data p) 0 = Inr b"
    by auto
  with assms(1) show ?thesis
    by (auto simp: portfolio_beta_def)
qed

theorem portfolio_beta_degenerate_benchmark_witness:
  "bench_return flat_bench = Inr (risk_free_rate doubling_portfolio)
   \<and> portf_value doubling_portfolio = Series [(1, Fin 100), (2, Fin 200)]
   \<and> portf_data doubling_portfolio \<noteq> [] \<and> [] \<notin> set (portf_data doubling_portfolio)
   \<and> (\<exists>b. (b = PInf \<or> b = NInf \<or> b = NaN)
          \<and> portfolio_beta flat_bench doubling_portfolio
              = Inr (doubling_portfolio\<lparr>portf_beta := Some b\<rparr>, b))"
proof -
  have 1: "bench_return flat_bench = Inr (risk_free_rate doubling_portfolio)"
    by (simp add: bench_return_def series_getitem_def flat_bench_def doubling_portfolio_def)
  have 2: "portf_value doubling_portfolio = Series [(1, Fin 100), (2, Fin 200)]"
    and 3: "portf_data doubling_portfolio \<noteq> []"
    and 4: "[] \<notin> set (portf_data doubling_portfolio)"
    by (simp_all add: doubling_portfolio_def)
  from portfolio_beta_degenerate_benchmark [OF 1 2 3 4] 1 2 3 4 show ?thesis
    by blast
qed

section \<open>What the metric methods change\<close>

lemma dip_constructed: "Portfolio dip [''A''] (Fin 10) = Inr dip_portfolio"
  by (simp add: pipeline_defs dip_def dip_portfolio_def)

lemma sqrt_100: "sqrt 100 = 10"
  using real_sqrt_abs [of 10] by (simp add: power2_eq_square)

lemma dip_sortino:
  "sortino_ratio dip_portfolio = Inr (dip_portfolio\<lparr>dwn_dev := Some (Fin 10)\<rparr>, Fin (1 / 9))"
  by (simp add: sortino_ratio_def dip_portfolio_def np_sum_def Let_def sqrt_100)

lemma dip_beta:
  "portfolio_beta quadrupling_bench dip_portfolio
     = Inr (dip_portfolio\<lparr>portf_beta := Some (Fin (4 / 17))\<rparr>, Fin (4 / 17))"
  by (simp add: beta_defs dip_portfolio_def quadrupling_bench_def)

lemma beta_loop_frame:
  assumes "portf_value q = portf_value p" and "risk_free_rate q = risk_free_rate p"
    and "portf_data q = portf_data p"
  shows "beta_loop q br is acc = beta_loop p br is acc"
  using assms
  by (induction "is" arbitrary: acc)
     (simp_all add: asset_share_def asset_beta_def split: sum.splits)

text \<open>
  C8, as the specification states it: calling \<^verbatim>\<open>sortino_ratio\<close> or \<^verbatim>\<open>portfolio_beta\<close>
  does not mutate the portfolio's state (value series, negative-excess set, retained
  per-asset series, or any other field) beyond caching the benchmark fetch, and repeated
  calls return the same result. Both methods assign an attribute of the object:
  \<^verbatim>\<open>sortino_ratio\<close> creates \<^verbatim>\<open>self.dwn_dev\<close> and \<^verbatim>\<open>portfolio_beta\<close> creates
  \<^verbatim>\<open>self.portf_beta\<close>, so the object after the call differs from the object before
  it (and no benchmark is cached: it is downloaded in every call).
\<close>

theorem metric_calls_mutate_counterexample:
  "Portfolio dip [''A''] (Fin 10) = Inr dip_portfolio
   \<and> sortino_ratio dip_portfolio = Inr (dip_portfolio\<lparr>dwn_dev := Some (Fin 10)\<rparr>, Fin (1 / 9))
   \<and> dwn_dev dip_portfolio = None
   \<and> dip_portfolio\<lparr>dwn_dev := Some (Fin 10)\<rparr> \<noteq> dip_portfolio
   \<and> portfolio_beta quadrupling_bench dip_portfolio
       = Inr (dip_portfolio\<lparr>portf_beta := Some (Fin (4 / 17))\<rparr>, Fin (4 / 17))
   \<and> portf_beta dip_portfolio = None
   \<and> dip_portfolio\<lparr>portf_beta := Some (Fin (4 / 17))\<rparr> \<noteq> dip_portfolio"
  by (simp add: dip_constructed dip_sortino dip_beta) (simp add: dip_portfolio_def)

text \<open>
  C8, amended: a call of \<^verbatim>\<open>sortino_ratio\<close> that returns changes only the attribute
  \<^verbatim>\<open>dwn_dev\<close>, and a call of \<^verbatim>\<open>portfolio_beta\<close> that returns changes only the attribute
  \<^verbatim>\<open>portf_beta\<close> (to the value it returns); asset list, risk-free rate, value series,
  retained per-asset series, portfolio return and negative-excess set are left as they
  were. A second call, on the same benchmark data, returns the same result and leaves
  the state as the first call left it; and what either method returns (or raises) does
  not depend on the two attributes these methods assign, so any number of calls in any
  order return the same results.
\<close>

theorem metric_calls_frame:
  "(\<forall>p' x. sortino_ratio p = Inr (p', x) \<longrightarrow>
       (\<exists>dd. p' = p\<lparr>dwn_dev := Some dd\<rparr>) \<and> sortino_ratio p' = Inr (p', x))
   \<and> (\<forall>p' y. portfolio_beta bench p = Inr (p', y) \<longrightarrow>
       p' = p\<lparr>portf_beta := Some y\<rparr> \<and> portfolio_beta bench p' = Inr (p', y))
   \<and> map_sum id snd (sortino_ratio (p\<lparr>dwn_dev := d, portf_beta := b\<rparr>))
       = map_sum id snd (sortino_ratio p)
   \<and> map_sum id snd (portfolio_beta bench (p\<lparr>dwn_dev := d, portf_beta := b\<rparr>))
       = map_sum id snd (portfolio_beta bench p)"
proof (intro conjI allI impI)
  fix p' x
  assume a: "sortino_ratio p = Inr (p', x)"
  then show "\<exists>dd. p' = p\<lparr>dwn_dev := Some dd\<rparr>"
    by (auto simp: sortino_ratio_def Let_def split: option.splits)
  from a show "sortino_ratio p' = Inr (p', x)"
    by (auto simp: sortino_ratio_def Let_def split: option.splits)
next
  fix p' y
  assume a: "portfolio_beta bench p = Inr (p', y)"
  then show p': "p' = p\<lparr>portf_beta := Some y\<rparr>"
    by (auto simp: portfolio_beta_def split: sum.splits)
  have "beta_loop p' br is acc = beta_loop p br is acc" for br "is" acc
    by (rule beta_loop_frame) (simp_all add: p')
  with a show "portfolio_beta bench p' = Inr (p', y)"
    by (auto simp: portfolio_beta_def p' split: sum.splits)
next
  show "map_sum id snd (sortino_ratio (p\<lparr>dwn_dev := d, portf_beta := b\<rparr>))
          = map_sum id snd (sortino_ratio p)"
    by (simp add: sortino_ratio_def Let_def split: option.splits)
next
  have "beta_loop (p\<lparr>dwn_dev := d, portf_beta := b\<rparr>) br is acc = beta_loop p br is acc"
    for br "is" acc
    by (rule beta_loop_frame) simp_all
  then show "map_sum id snd (portfolio_beta bench (p\<lparr>dwn_dev := d, portf_beta := b\<rparr>))
          = map_sum id snd (portfolio_beta bench p)"
    by (simp add: portfolio_beta_def split: sum.splits)
qed

theorem metric_calls_frame_witness:
  "sortino_ratio dip_portfolio = Inr (dip_portfolio\<lparr>dwn_dev := Some (Fin 10)\<rparr>, Fin (1 / 9))
   \<and> sortino_ratio (dip_portfolio\<lparr>dwn_dev := Some (Fin 10)\<rparr>)
       = Inr (dip_portfolio\<lparr>dwn_dev := Some (Fin 10)\<rparr>, Fin (1 / 9))
   \<and> portfolio_beta quadrupling_bench dip_portfolio
       = Inr (dip_portfolio\<lparr>portf_beta := Some (Fin (4 / 17))\<rparr>, Fin (4 / 17))
   \<and> portfolio_beta quadrupling_bench (dip_portfolio\<lparr>portf_beta := Some (Fin (4 / 17))\<rparr>)
       = Inr (dip_portfolio\<lparr>portf_beta := Some (Fin (4 / 17))\<rparr>, Fin (4 / 17))"
  using metric_calls_frame [of dip_portfolio quadrupling_bench] dip_sortino dip_beta
  by simp

section \<open>A positive risk-free rate\<close>

lemma entry_nonneg:
  assumes "v < Fin t"
  shows "Fin 0 \<le> fl_sq ((v / Fin t - 1) * 100)"
  using assms by (cases v) (auto simp: fl_sq_def)

lemma entry_pos:
  assumes "0 < r"
  shows "Fin 0 < fl_sq ((Fin v0 / Fin (v0 + r) - 1) * 100)"
proof (cases "v0 + r = 0")
  case True
  with assms have "v0 < 0" by linarith
  with True show ?thesis by (simp add: fl_sq_def)
next
  case False
  define x where "x = (v0 / (v0 + r) - 1) * 100"
  from False assms have "x \<noteq> 0"
    by (simp add: x_def field_simps)
  then have "0 < x\<^sup>2"
    by simp
  then have "0 < x * x"
    by (simp only: power2_eq_square)
  with False show ?thesis
    by (simp add: fl_sq_def x_def)
qed

lemma pos_plus_nonneg: "Fin 0 < a \<Longrightarrow> Fin 0 \<le> b \<Longrightarrow> Fin 0 < a + b"
  by (cases a; cases b) auto

lemma foldl_plus_pos:
  "Fin 0 < acc \<Longrightarrow> \<forall>x \<in> set xs. Fin 0 \<le> x \<Longrightarrow> Fin 0 < foldl (+) acc xs"
  by (induction xs arbitrary: acc) (simp_all add: pos_plus_nonneg)

lemma np_sum_pos:
  assumes "Fin 0 < e" and "\<forall>x \<in> set es. Fin 0 \<le> x"
  shows "Fin 0 < np_sum (e # es)"
proof -
  have "Fin 0 + e = e" by (cases e) simp_all
  with assms show ?thesis
    by (simp add: np_sum_def foldl_plus_pos)
qed

lemma np_sqrt_pos: "Fin 0 < x \<Longrightarrow> Fin 0 < np_sqrt x"
  by (cases x) auto




section \<open>Reordering the asset list\<close>

lemma dated_Cons:
  "dated (x # xs) \<longleftrightarrow> (\<forall>k \<in> set (map fst xs). fst x < k) \<and> dated xs"
  by (simp add: dated_def)

lemma keys_map_value: "map fst (map (\<lambda>(d, v). (d, f d v)) s) = map fst s"
  by (induction s) auto

lemma dated_map_value: "dated (map (\<lambda>(d, v). (d, f d v)) s) = dated s"
  by (simp only: dated_def keys_map_value)

lemma keys_align_add:
  "set (map fst (align_add a b)) = set (map fst a) \<union> set (map fst b)"
proof (induction a b rule: align_add.induct)
  case (1 ys)
  show ?case using keys_map_value [of "\<lambda>_ _. NaN" ys] by simp
next
  case (2 x xs)
  show ?case using keys_map_value [of "\<lambda>_ _. NaN" "x # xs"] by simp
next
  case (3 d x xs e y ys)
  then show ?case by (cases "d < e"; cases "e < d") auto
qed

lemma dated_align_add: "dated a \<Longrightarrow> dated b \<Longrightarrow> dated (align_add a b)"
proof (induction a b rule: align_add.induct)
  case (1 ys)
  then show ?case using dated_map_value [of "\<lambda>_ _. NaN" ys] by simp
next
  case (2 x xs)
  then show ?case using dated_map_value [of "\<lambda>_ _. NaN" "x # xs"] by simp
next
  case (3 d x xs e y ys)
  from "3.prems" have xs: "dated xs" "\<forall>k \<in> set (map fst xs). d < k"
    and ys: "dated ys" "\<forall>k \<in> set (map fst ys). e < k"
    by (simp_all add: dated_Cons)
  consider (lt) "d < e" | (gt) "e < d" | (eq) "d = e"
    by (cases d e rule: linorder_cases) auto
  then show ?case
  proof cases
    case lt
    have "dated (align_add xs ((e, y) # ys))"
      using lt "3.prems" xs by (intro "3.IH"(1)) simp_all
    moreover have "\<forall>k \<in> set (map fst (align_add xs ((e, y) # ys))). d < k"
      using lt xs ys by (auto simp: keys_align_add simp del: set_map)
    ultimately show ?thesis
      using lt by (simp add: dated_Cons del: set_map)
  next
    case gt
    have "dated (align_add ((d, x) # xs) ys)"
      using gt "3.prems" ys by (intro "3.IH"(2)) simp_all
    moreover have "\<forall>k \<in> set (map fst (align_add ((d, x) # xs) ys)). e < k"
      using gt xs ys by (auto simp: keys_align_add simp del: set_map)
    ultimately show ?thesis
      using gt by (simp add: dated_Cons del: set_map)
  next
    case eq
    have "dated (align_add xs ys)"
      using eq xs ys by (intro "3.IH"(3)) simp_all
    moreover have "\<forall>k \<in> set (map fst (align_add xs ys)). d < k"
      using eq xs ys by (auto simp: keys_align_add simp del: set_map)
    ultimately show ?thesis
      using eq by (simp add: dated_Cons del: set_map)
  qed
qed

lemma map_of_map_nan:
  "map_of (map (\<lambda>(d, v). (d, NaN)) s) k = comb None (map_of s k)"
  by (induction s) auto

lemma map_of_map_nan': 
  "map_of (map (\<lambda>(d, v). (d, NaN)) s) k = comb (map_of s k) None"
  by (induction s) auto

lemma map_of_absent: "\<forall>j \<in> set (map fst s). k < j \<Longrightarrow> map_of (s :: series) k = None"
  by (induction s) auto

lemma map_of_align_add:
  "dated a \<Longrightarrow> dated b \<Longrightarrow> map_of (align_add a b) k = comb (map_of a k) (map_of b k)"
proof (induction a b rule: align_add.induct)
  case (1 ys)
  show ?case using map_of_map_nan [of ys k] by simp
next
  case (2 x xs)
  show ?case using map_of_map_nan' [of "x # xs" k] by simp
next
  case (3 d x xs e y ys)
  from "3.prems" have xs: "dated xs" "\<forall>j \<in> set (map fst xs). d < j"
    and ys: "dated ys" "\<forall>j \<in> set (map fst ys). e < j"
    by (simp_all add: dated_Cons)
  consider (lt) "d < e" | (gt) "e < d" | (eq) "d = e"
    by (cases d e rule: linorder_cases) auto
  then show ?case
  proof cases
    case lt
    have ih: "map_of (align_add xs ((e, y) # ys)) k = comb (map_of xs k) (map_of ((e, y) # ys) k)"
      using lt "3.prems" xs by (intro "3.IH"(1)) simp_all
    have "map_of ((e, y) # ys) d = None"
      using lt ys by (intro map_of_absent) auto
    with lt ih show ?thesis by simp
  next
    case gt
    have ih: "map_of (align_add ((d, x) # xs) ys) k = comb (map_of ((d, x) # xs) k) (map_of ys k)"
      using gt "3.prems" ys by (intro "3.IH"(2)) simp_all
    have "map_of ((d, x) # xs) e = None"
      using gt xs by (intro map_of_absent) auto
    with gt ih show ?thesis by simp
  next
    case eq
    have ih: "map_of (align_add xs ys) k = comb (map_of xs k) (map_of ys k)"
      using eq xs ys by (intro "3.IH"(3)) simp_all
    with eq show ?thesis by simp
  qed
qed

lemma dated_eqI:
  assumes "dated a" and "dated b" and "map_of a = map_of b"
  shows "a = b"
proof -
  from assms(1,2) have sd: "sorted (map fst a)" "distinct (map fst a)"
    "sorted (map fst b)" "distinct (map fst b)"
    by (simp_all add: dated_def strict_sorted_iff)
  with assms(3) have eq: "set a = set b"
    by (simp add: map_of_inject_set)
  from sd(2) have "inj_on fst (set a)"
    by (simp add: distinct_map)
  with eq have "inj_on fst (set a \<union> set b)"
    by simp
  from map_sorted_distinct_set_unique [OF this sd eq] show ?thesis .
qed


lemma fl_zero_plus: "Fin 0 + v = v"
  by (cases v) simp_all

lemma comb_commute: "comb a b = comb b a"
  by (cases a; cases b) (simp_all add: fl_add_commute)

lemma fl_plus_NaN: "x + NaN = NaN"
  by (cases x) simp_all

lemma comb_assoc: "comb (comb a b) c = comb a (comb b c)"
  by (cases a; cases b; cases c) (simp_all add: fl_add_assoc fl_plus_NaN)

lemma comb_right_commute: "comb (comb a b) c = comb (comb a c) b"
  by (metis comb_assoc comb_commute)

lemma accum_commute: "accum a \<circ> accum b = accum b \<circ> accum a"
proof
  fix v
  show "(accum a \<circ> accum b) v = (accum b \<circ> accum a) v"
  proof (cases v)
    case None
    then show ?thesis by (simp add: comb_commute [of a b])
  next
    case (Some x)
    then show ?thesis by (simp add: comb_right_commute [of x b a])
  qed
qed

lemma py_add_at_date:
  assumes "well_dated v" and "dated s"
  shows "well_dated (py_add v s) \<and> at_date (py_add v s) k = accum (map_of s k) (at_date v k)"
proof (cases v)
  case (Scalar c)
  with assms(1) have "map (\<lambda>(d, v). (d, c + v)) s = s"
    by (simp add: fl_zero_plus case_prod_unfold)
  with Scalar assms(2) show ?thesis
    by (simp add: py_add_def)
next
  case (Series t)
  with assms show ?thesis
    by (simp add: py_add_def dated_align_add map_of_align_add)
qed

lemma fold_py_add_at_date:
  assumes "well_dated v" and "\<forall>s \<in> set W. dated s"
  shows "well_dated (fold (\<lambda>s v. py_add v s) W v)
       \<and> at_date (fold (\<lambda>s v. py_add v s) W v) k
           = fold (\<lambda>s. accum (map_of s k)) W (at_date v k)"
  using assms
proof (induction W arbitrary: v)
  case Nil
  then show ?case by simp
next
  case (Cons s W)
  from Cons.prems py_add_at_date [of v s k]
  have "well_dated (py_add v s)" "at_date (py_add v s) k = accum (map_of s k) (at_date v k)"
    by simp_all
  with Cons.IH [of "py_add v s"] Cons.prems(2) show ?case
    by simp
qed

lemma well_dated_eqI:
  assumes "well_dated v" and "well_dated w" and "\<And>k. at_date v k = at_date w k"
  shows "v = w"
proof (cases v; cases w)
  fix a b assume "v = Series a" "w = Series b"
  with assms show ?thesis
    by (auto intro: dated_eqI)
qed (use assms in auto)

lemma aggregate_permutation:
  assumes "mset W = mset W'" and "\<forall>s \<in> set W. dated s"
  shows "fold (\<lambda>s v. py_add v s) W (Scalar 0) = fold (\<lambda>s v. py_add v s) W' (Scalar 0)"
proof (rule well_dated_eqI)
  from assms have W': "\<forall>s \<in> set W'. dated s"
    by (metis set_mset_mset)
  show "well_dated (fold (\<lambda>s v. py_add v s) W (Scalar 0))"
    using fold_py_add_at_date [of "Scalar 0" W] assms(2) by simp
  show "well_dated (fold (\<lambda>s v. py_add v s) W' (Scalar 0))"
    using fold_py_add_at_date [of "Scalar 0" W'] W' by simp
  fix k
  have "fold (\<lambda>s. accum (map_of s k)) W = fold (\<lambda>s. accum (map_of s k)) W'"
    by (rule fold_multiset_equiv) (simp_all add: accum_commute assms(1))
  then show "at_date (fold (\<lambda>s v. py_add v s) W (Scalar 0)) k
           = at_date (fold (\<lambda>s v. py_add v s) W' (Scalar 0)) k"
    using fold_py_add_at_date [of "Scalar 0" W k] fold_py_add_at_date [of "Scalar 0" W' k]
      assms(2) W'
    by simp
qed

lemma download_fold:
  "fold (download_step history) ts p =
     p\<lparr>portf_value :=
         fold (\<lambda>s v. py_add v s)
           (map (\<lambda>t. series_div (history t) (Fin (real (length (asset_list p))))) ts)
           (portf_value p),
       portf_data := portf_data p @ map history ts\<rparr>"
  by (induction ts arbitrary: p) (simp_all add: download_step_def Let_def)

lemma download_data_closed:
  "download_data history (dataclass_init al rfr) =
     \<lparr>asset_list = al, risk_free_rate = rfr,
      portf_value =
        fold (\<lambda>s v. py_add v s)
          (map (\<lambda>t. series_div (history t) (Fin (real (length al)))) al) (Scalar 0),
      portf_data = map history al,
      portf_return = None, ner = None, portf_beta = None, dwn_dev = None\<rparr>"
  by (simp add: download_data_def download_fold dataclass_init_def)

lemma dated_series_div: "dated (series_div s c) = dated s"
  unfolding series_div_def by (rule dated_map_value)

lemma download_data_permutation:
  assumes "mset al' = mset al" and "\<forall>t \<in> set al. dated (history t)"
  shows "portf_value (download_data history (dataclass_init al' rfr))
           = portf_value (download_data history (dataclass_init al rfr))"
    and "mset (portf_data (download_data history (dataclass_init al' rfr)))
           = mset (portf_data (download_data history (dataclass_init al rfr)))"
proof -
  from assms(1) have len: "length al' = length al"
    by (rule mset_eq_length)
  let ?W = "\<lambda>ts. map (\<lambda>t. series_div (history t) (Fin (real (length al)))) ts"
  have "mset (?W al) = mset (?W al')"
    using assms(1) by simp
  moreover have "\<forall>s \<in> set (?W al). dated s"
    using assms(2) by (simp add: dated_series_div)
  ultimately have "fold (\<lambda>s v. py_add v s) (?W al) (Scalar 0)
                 = fold (\<lambda>s v. py_add v s) (?W al') (Scalar 0)"
    by (rule aggregate_permutation)
  then show "portf_value (download_data history (dataclass_init al' rfr))
           = portf_value (download_data history (dataclass_init al rfr))"
    by (simp add: download_data_closed len)
  show "mset (portf_data (download_data history (dataclass_init al' rfr)))
           = mset (portf_data (download_data history (dataclass_init al rfr)))"
    using assms(1) by (simp add: download_data_closed)
qed


lemma beta_loop_closed:
  assumes "getitem (portf_value p) 0 = Inr v0"
  shows "beta_loop p br is acc =
     (if [] \<in> set is then Inl IndexError
      else Inr (fold (\<lambda>i a. a + asset_beta p ((snd (hd i) / snd (last i) - 1) * 100) br
                                 * (snd (hd i) / v0) / Fin (real (length (portf_data p))))
                  is acc))"
proof (induction "is" arbitrary: acc)
  case Nil
  show ?case by simp
next
  case (Cons i rest)
  show ?case
  proof (cases "i = []")
    case True
    then show ?thesis
      by (simp add: asset_return_def series_getitem_def)
  next
    case False
    with assms Cons.IH show ?thesis
      by (auto simp: asset_return_def asset_share_def series_getitem_zero series_getitem_last)
  qed
qed

lemma beta_fold_permutation:
  assumes "mset is' = mset is"
  shows "fold (\<lambda>i a. a + (f i :: fl)) is' acc = fold (\<lambda>i a. a + f i) is acc"
proof -
  have "(\<lambda>a. a + f x) \<circ> (\<lambda>a. a + f y) = (\<lambda>a. a + f y) \<circ> (\<lambda>a. a + f x)" for x y
    by (rule ext) (simp add: fl_add_assoc fl_add_commute [of "f x" "f y"])
  then have "fold (\<lambda>i a. a + f i) is' = fold (\<lambda>i a. a + f i) is"
    using assms by (intro fold_multiset_equiv) simp_all
  then show ?thesis by simp
qed

lemma beta_after_init_permutation:
  assumes pv: "portf_value q = portf_value p"
    and rf: "risk_free_rate q = risk_free_rate p"
    and pd: "mset (portf_data q) = mset (portf_data p)"
  shows "(case portfolio_return q of
            Inl e \<Rightarrow> Inl e
          | Inr q1 \<Rightarrow>
              (case negative_excess_returns q1 of
                 Inl e \<Rightarrow> Inl e
               | Inr q2 \<Rightarrow> map_sum id snd (portfolio_beta bench q2)))
       = (case portfolio_return p of
            Inl e \<Rightarrow> Inl e
          | Inr p1 \<Rightarrow>
              (case negative_excess_returns p1 of
                 Inl e \<Rightarrow> Inl e
               | Inr p2 \<Rightarrow> map_sum id snd (portfolio_beta bench p2)))"
proof (cases "getitem (portf_value p) (- 1)")
  case (Inl e)
  then show ?thesis by (simp add: portfolio_return_def pv)
next
  case vl: (Inr vl)
  show ?thesis
  proof (cases "getitem (portf_value p) 0")
    case (Inl e)
    with vl show ?thesis by (simp add: portfolio_return_def pv)
  next
    case v0: (Inr v0)
    then obtain s where s: "portf_value p = Series s"
      by (cases "portf_value p") (simp_all add: getitem_def)
    define r where "r = (vl / v0 - 1) * 100"
    define es where "es = map (\<lambda>v. fl_sq ((v / (v0 + risk_free_rate p) - 1) * 100))
                            (filter (\<lambda>v. v < v0 + risk_free_rate p) (map snd s))"
    have p1: "portfolio_return p = Inr (p\<lparr>portf_return := Some r\<rparr>)"
      and q1: "portfolio_return q = Inr (q\<lparr>portf_return := Some r\<rparr>)"
      using vl v0 by (simp_all add: portfolio_return_def pv r_def)
    have p2: "negative_excess_returns (p\<lparr>portf_return := Some r\<rparr>)
                = Inr (p\<lparr>portf_return := Some r, ner := Some es\<rparr>)"
      using ner_loop_closed [of "p\<lparr>portf_return := Some r\<rparr>" v0 "map snd s" "[]"] v0 s
      by (simp add: negative_excess_returns_def es_def)
    have q2: "negative_excess_returns (q\<lparr>portf_return := Some r\<rparr>)
                = Inr (q\<lparr>portf_return := Some r, ner := Some es\<rparr>)"
      using ner_loop_closed [of "q\<lparr>portf_return := Some r\<rparr>" v0 "map snd s" "[]"] v0 s
      by (simp add: negative_excess_returns_def es_def pv rf)
    from pd have len: "length (portf_data q) = length (portf_data p)"
      by (rule mset_eq_length)
    from pd have mem: "[] \<in> set (portf_data q) \<longleftrightarrow> [] \<in> set (portf_data p)"
      by (metis set_mset_mset)
    have "beta_loop (q\<lparr>portf_return := Some r, ner := Some es\<rparr>) br (portf_data q) 0
        = beta_loop (p\<lparr>portf_return := Some r, ner := Some es\<rparr>) br (portf_data p) 0" for br
      using beta_loop_closed [of "q\<lparr>portf_return := Some r, ner := Some es\<rparr>" v0 br "portf_data q" 0]
        beta_loop_closed [of "p\<lparr>portf_return := Some r, ner := Some es\<rparr>" v0 br "portf_data p" 0]
        v0 beta_fold_permutation [OF pd]
      by (simp add: pv rf len mem asset_beta_def)
    then have "map_sum id snd (portfolio_beta bench (q\<lparr>portf_return := Some r, ner := Some es\<rparr>))
             = map_sum id snd (portfolio_beta bench (p\<lparr>portf_return := Some r, ner := Some es\<rparr>))"
      by (simp add: portfolio_beta_def split: sum.splits)
    with p1 q1 p2 q2 show ?thesis
      by simp
  qed
qed

lemma sum_case_nested:
  "(case (case x of Inl e \<Rightarrow> Inl e | Inr a \<Rightarrow> f a) of Inl e \<Rightarrow> Inl e | Inr p \<Rightarrow> g p)
     = (case x of Inl e \<Rightarrow> Inl e | Inr a \<Rightarrow> (case f a of Inl e \<Rightarrow> Inl e | Inr p \<Rightarrow> g p))"
  by (cases x) simp_all



end
